theory Spec2Isabelle
  imports Complex_Main
begin

section \<open>Baseline forecasters and interval helpers of \<open>statsforecast.utils\<close>\<close>

text \<open>
  The development embeds the model utilities of \<^verbatim>\<open>nbs/src/utils.ipynb\<close>:
  \<^verbatim>\<open>_repeat_val_seas\<close>, \<^verbatim>\<open>_seasonal_naive\<close>, \<^verbatim>\<open>_repeat_val\<close>, \<^verbatim>\<open>_naive\<close>,
  \<^verbatim>\<open>_quantiles\<close>, \<^verbatim>\<open>_calculate_intervals\<close>, \<^verbatim>\<open>_calculate_sigma\<close> and the class
  \<^verbatim>\<open>ConformalIntervals\<close>. A leading underscore is not part of an Isabelle name, so
  the functions are called \<open>repeat_val_seas\<close>, \<open>seasonal_naive\<close> and so on.
\<close>

subsection \<open>Data model\<close>

text \<open>The exceptions the embedded code can raise.\<close>

datatype error = ValueError | ZeroDivisionError | IndexError | KeyError

text \<open>
  A cell of a floating-point array: either NaN or a number. The payload type is left
  open for the forecasters, which only move cells around, and is \<open>real\<close> for the
  arithmetic of the interval helpers.
\<close>

datatype 'a npfloat = NaN | Val 'a

text \<open>
  A one-dimensional array is a list. The forecasters return a
  \<^verbatim>\<open>Dict[str, np.ndarray]\<close>, a map from strings to arrays.
\<close>

type_synonym 'a forecast = "string \<rightharpoonup> 'a npfloat list"

subsection \<open>The Python and numpy primitives the code uses\<close>

text \<open>
  A slice bound \<open>i\<close> on a sequence of length \<open>n\<close>: a negative bound counts from the end,
  and every bound is clamped to \<open>0..n\<close>.
\<close>

definition slice_bound :: "nat \<Rightarrow> int \<Rightarrow> nat" where
  "slice_bound n i = (if i < 0 then nat (int n + i) else min (nat i) n)"

text \<open>\<^verbatim>\<open>xs[i:]\<close> and \<^verbatim>\<open>xs[:j]\<close>.\<close>

definition slice_from :: "'a list \<Rightarrow> int \<Rightarrow> 'a list" where
  "slice_from xs i = drop (slice_bound (length xs) i) xs"

definition slice_to :: "'a list \<Rightarrow> int \<Rightarrow> 'a list" where
  "slice_to xs j = take (slice_bound (length xs) j) xs"

text \<open>\<^verbatim>\<open>xs[i]\<close> for an integer \<open>i\<close>: out of range raises \<^verbatim>\<open>IndexError\<close>.\<close>

definition item :: "'a list \<Rightarrow> int \<Rightarrow> error + 'a" where
  "item xs i =
     (let j = (if i < 0 then int (length xs) + i else i)
      in if j < 0 \<or> int (length xs) \<le> j then Inl IndexError else Inr (xs ! nat j))"

text \<open>
  Broadcasting a one-dimensional right-hand side to a target of \<open>k\<close> cells: equal lengths
  fit, a single cell is repeated, anything else raises \<^verbatim>\<open>ValueError\<close>.
\<close>

definition broadcast_to :: "nat \<Rightarrow> 'a list \<Rightarrow> error + 'a list" where
  "broadcast_to k vs =
     (if length vs = k then Inr vs
      else if length vs = 1 then Inr (replicate k (hd vs))
      else Inl ValueError)"

text \<open>The assignments \<^verbatim>\<open>xs[:j] = vs\<close> and \<^verbatim>\<open>xs[i:] = vs\<close> with an array \<open>vs\<close>.\<close>

definition assign_to :: "'a list \<Rightarrow> int \<Rightarrow> 'a list \<Rightarrow> error + 'a list" where
  "assign_to xs j vs =
     (let k = slice_bound (length xs) j
      in case broadcast_to k vs of
           Inl e \<Rightarrow> Inl e
         | Inr ws \<Rightarrow> Inr (ws @ drop k xs))"

definition assign_from :: "'a list \<Rightarrow> int \<Rightarrow> 'a list \<Rightarrow> error + 'a list" where
  "assign_from xs i vs =
     (let k = slice_bound (length xs) i
      in case broadcast_to (length xs - k) vs of
           Inl e \<Rightarrow> Inl e
         | Inr ws \<Rightarrow> Inr (take k xs @ ws))"

text \<open>The assignment \<^verbatim>\<open>xs[:j] = v\<close> with a scalar \<open>v\<close>.\<close>

definition fill_to :: "'a list \<Rightarrow> int \<Rightarrow> 'a \<Rightarrow> 'a list" where
  "fill_to xs j v = (let k = slice_bound (length xs) j in replicate k v @ drop k xs)"

text \<open>\<^verbatim>\<open>np.full(k, v)\<close>: a negative size raises \<^verbatim>\<open>ValueError\<close>.\<close>

definition np_full :: "int \<Rightarrow> 'a \<Rightarrow> error + 'a list" where
  "np_full k v = (if k < 0 then Inl ValueError else Inr (replicate (nat k) v))"

text \<open>
  \<^verbatim>\<open>np.empty(n)\<close> allocates without initialising. What the cells hold is not
  determined by the program, so it is a parameter: cell \<open>i\<close> holds \<open>junk i\<close>.
\<close>

definition np_empty :: "(nat \<Rightarrow> 'a) \<Rightarrow> nat \<Rightarrow> 'a list" where
  "np_empty junk n = map junk [0..<n]"

text \<open>
  \<^verbatim>\<open>np.tile(xs, reps)\<close> on a one-dimensional array: \<open>reps\<close> copies end to end; a
  negative count raises \<^verbatim>\<open>ValueError\<close>.
\<close>

definition np_tile :: "'a list \<Rightarrow> int \<Rightarrow> error + 'a list" where
  "np_tile xs reps =
     (if reps < 0 then Inl ValueError else Inr (concat (replicate (nat reps) xs)))"

text \<open>
  \<^verbatim>\<open>np.roll(xs, shift)\<close> on a one-dimensional array: the cells move \<open>shift\<close> places
  to the right and wrap around.
\<close>

definition np_roll :: "'a list \<Rightarrow> int \<Rightarrow> 'a list" where
  "np_roll xs shift =
     (if xs = [] then []
      else let k = length xs - nat (shift mod int (length xs))
           in drop k xs @ take k xs)"

text \<open>
  \<^verbatim>\<open>math.ceil(a / b)\<close> for integers: division by zero raises, otherwise the
  quotient is rounded up (the float quotient is exact enough for that on every
  array size a machine can hold).
\<close>

definition ceil_div :: "int \<Rightarrow> int \<Rightarrow> error + int" where
  "ceil_div a b = (if b = 0 then Inl ZeroDivisionError else Inr (- ((- a) div b)))"

subsection \<open>Seasonal naive and naive forecasters\<close>

text \<open>
  Every array the forecasters emit has dtype \<^verbatim>\<open>np.float32\<close>; storing a cell of \<open>y\<close>
  into one converts it. The conversion belongs to numpy and is the parameter \<open>cast\<close>
  (the identity when \<open>y\<close> is a float32 array already).

  For an integer array (\<^verbatim>\<open>np.arange(23)\<close> in the notebook's own test) the conversion
  is \<open>float32_of_int\<close>: a float32 has 24 significant bits, so an integer of more bits
  is rounded to the nearest multiple of the power of two that leaves 24 of them, a tie
  going to the even multiple. The integers of an int64 array are far below the
  largest float32, so none becomes infinite. \<open>bit_length\<close> is Python's
  \<^verbatim>\<open>int.bit_length\<close>.
\<close>

fun bit_length :: "nat \<Rightarrow> nat" where
  "bit_length n = (if n = 0 then 0 else bit_length (n div 2) + 1)"

declare bit_length.simps [simp del]

definition float32_of_int :: "int \<Rightarrow> int npfloat" where
  "float32_of_int x =
     (let a = \<bar>x\<bar>;
          q = 2 ^ (bit_length (nat a) - 24);
          d = a div q;
          r = a mod q;
          m = (if 2 * r < q then d else if q < 2 * r then d + 1
               else if even d then d else d + 1)
      in Val (sgn x * (m * q)))"

definition repeat_val_seas :: "'a list \<Rightarrow> int \<Rightarrow> error + 'a list" where
  "repeat_val_seas season_vals h =
     (case ceil_div h (int (length season_vals)) of
        Inl e \<Rightarrow> Inl e
      | Inr repeats \<Rightarrow>
          (case np_tile season_vals repeats of
             Inl e \<Rightarrow> Inl e
           | Inr tiled \<Rightarrow> Inr (slice_to tiled h)))"

text \<open>
  The season template: the value of the local \<^verbatim>\<open>season_vals\<close> of
  \<^verbatim>\<open>_seasonal_naive\<close> when it is handed to \<^verbatim>\<open>_repeat_val_seas\<close>.
\<close>

definition season_template ::
  "('a \<Rightarrow> 'b npfloat) \<Rightarrow> 'a list \<Rightarrow> int \<Rightarrow> error + 'b npfloat list" where
  "season_template cast y season_length =
     (let n = length y
      in case np_full season_length NaN of
           Inl e \<Rightarrow> Inl e
         | Inr season_vals \<Rightarrow>
             (let season_samples = min season_length (int n)
              in assign_to season_vals season_samples
                   (map cast (slice_from y (- season_samples)))))"

definition seasonal_naive ::
  "('a \<Rightarrow> 'b npfloat) \<Rightarrow> (nat \<Rightarrow> 'b npfloat) \<Rightarrow> 'a list \<Rightarrow> int \<Rightarrow> bool \<Rightarrow> int
     \<Rightarrow> error + 'b forecast" where
  "seasonal_naive cast junk y h fitted season_length =
     (let n = length y
      in case season_template cast y season_length of
           Inl e \<Rightarrow> Inl e
         | Inr season_vals \<Rightarrow>
             (case repeat_val_seas season_vals h of
                Inl e \<Rightarrow> Inl e
              | Inr out \<Rightarrow>
                  (let fcst = [''mean'' \<mapsto> out]
                   in if fitted then
                        (let fitted_vals = fill_to (np_empty junk n) season_length NaN
                         in if int n > season_length then
                              (case assign_from fitted_vals season_length
                                      (map cast (slice_to y (int n - season_length))) of
                                 Inl e \<Rightarrow> Inl e
                               | Inr fitted_vals \<Rightarrow> Inr (fcst(''fitted'' \<mapsto> fitted_vals)))
                            else Inr (fcst(''fitted'' \<mapsto> fitted_vals)))
                      else Inr fcst)))"

definition repeat_val :: "('a \<Rightarrow> 'b npfloat) \<Rightarrow> 'a \<Rightarrow> int \<Rightarrow> error + 'b npfloat list" where
  "repeat_val cast val h = np_full h (cast val)"

definition naive ::
  "('a \<Rightarrow> 'b npfloat) \<Rightarrow> 'a list \<Rightarrow> int \<Rightarrow> bool \<Rightarrow> error + 'b forecast" where
  "naive cast y h fitted =
     (case item y (- 1) of
        Inl e \<Rightarrow> Inl e
      | Inr val \<Rightarrow>
          (case repeat_val cast val h of
             Inl e \<Rightarrow> Inl e
           | Inr out \<Rightarrow>
               (let fcst = [''mean'' \<mapsto> out]
                in if fitted then
                     (case np_full (int (length y)) NaN of
                        Inl e \<Rightarrow> Inl e
                      | Inr fitted_vals \<Rightarrow>
                          (case assign_from fitted_vals 1
                                  (map cast (slice_from (np_roll y 1) 1)) of
                             Inl e \<Rightarrow> Inl e
                           | Inr fitted_vals \<Rightarrow> Inr (fcst(''fitted'' \<mapsto> fitted_vals))))
                   else Inr fcst)))"

subsection \<open>Prediction intervals\<close>

text \<open>
  The interval helpers compute with numbers. They are modelled on the reals: a cell is
  \<open>real npfloat\<close> where the code treats NaN (\<^verbatim>\<open>np.nansum\<close>), and a plain \<open>real\<close> where
  it does not; rounding and overflow of the machine formats are left out.

  \<^verbatim>\<open>scipy.stats.norm.ppf\<close> is not part of the repository; the inverse normal
  distribution function is the parameter \<open>ppf\<close>.
\<close>

definition quantiles :: "(real \<Rightarrow> real) \<Rightarrow> real list \<Rightarrow> real list" where
  "quantiles ppf level = map (\<lambda>lv. ppf (0.5 + lv / 200)) level"

text \<open>\<^verbatim>\<open>np.repeat(z, h)\<close>: each cell \<open>h\<close> times in a row; a negative count raises.\<close>

definition np_repeat :: "'a list \<Rightarrow> int \<Rightarrow> error + 'a list" where
  "np_repeat z h =
     (if h < 0 then Inl ValueError else Inr (concat (map (replicate (nat h)) z)))"

text \<open>
  A two-dimensional array is its number of columns together with its rows (the number
  of columns is kept because an array may have no row).
  \<^verbatim>\<open>zz.reshape(r, h)\<close> cuts a flat array of \<open>r * h\<close> cells into \<open>r\<close> rows.
\<close>

type_synonym 'a array2 = "nat \<times> 'a list list"

definition np_reshape :: "'a list \<Rightarrow> nat \<Rightarrow> int \<Rightarrow> error + 'a array2" where
  "np_reshape zz r h =
     (if h < 0 \<or> length zz \<noteq> r * nat h then Inl ValueError
      else Inr (nat h, map (\<lambda>i. take (nat h) (drop (i * nat h) zz)) [0..<r]))"

text \<open>
  Broadcasting of the last axis: two lengths fit when they are equal or one of them is
  1; the result has the longer one, and a one-cell operand is stretched to it. A Python
  scalar behaves as a one-cell array here.
\<close>

definition bshape :: "nat \<Rightarrow> nat \<Rightarrow> error + nat" where
  "bshape a b =
     (if a = b then Inr a else if a = 1 then Inr b else if b = 1 then Inr a
      else Inl ValueError)"

definition stretch :: "nat \<Rightarrow> 'a list \<Rightarrow> 'a list" where
  "stretch c xs = (if length xs = c then xs else replicate c (hd xs))"

text \<open>\<open>M \<circ> v\<close> and \<open>v \<circ> M\<close> for a two-dimensional \<open>M\<close>, a one-dimensional \<open>v\<close> and a
  cellwise operation.\<close>

definition array2_op ::
  "('a \<Rightarrow> 'a \<Rightarrow> 'a) \<Rightarrow> 'a array2 \<Rightarrow> 'a list \<Rightarrow> error + 'a array2" where
  "array2_op f M v =
     (case bshape (fst M) (length v) of
        Inl e \<Rightarrow> Inl e
      | Inr c \<Rightarrow> Inr (c, map (\<lambda>row. map2 f (stretch c row) (stretch c v)) (snd M)))"

definition op_array2 ::
  "('a \<Rightarrow> 'a \<Rightarrow> 'a) \<Rightarrow> 'a list \<Rightarrow> 'a array2 \<Rightarrow> error + 'a array2" where
  "op_array2 f v M =
     (case bshape (length v) (fst M) of
        Inl e \<Rightarrow> Inl e
      | Inr c \<Rightarrow> Inr (c, map (\<lambda>row. map2 f (stretch c v) (stretch c row)) (snd M)))"

text \<open>
  The keys \<^verbatim>\<open>f'lo-{lv}'\<close> and \<^verbatim>\<open>f'hi-{lv}'\<close> of the interval dictionary. The rendering
  of a level is not modelled: a key is the prefix together with the level.
\<close>

datatype bound_key = Lo real | Hi real

text \<open>A dictionary display or comprehension stores its items in order; a later item
  with the same key overwrites an earlier one.\<close>

definition dict_update :: "('k \<rightharpoonup> 'v) \<Rightarrow> ('k \<times> 'v) list \<Rightarrow> ('k \<rightharpoonup> 'v)" where
  "dict_update d items = fold (\<lambda>(k, v) d. d(k \<mapsto> v)) items d"

definition calculate_intervals ::
  "(real \<Rightarrow> real) \<Rightarrow> (string \<rightharpoonup> real list) \<Rightarrow> real list \<Rightarrow> int \<Rightarrow> real list
     \<Rightarrow> error + (bound_key \<rightharpoonup> real list)" where
  "calculate_intervals ppf out level h sigmah =
     (let z = quantiles ppf level
      in case np_repeat z h of
           Inl e \<Rightarrow> Inl e
         | Inr zz \<Rightarrow>
             (case np_reshape zz (length z) h of
                Inl e \<Rightarrow> Inl e
              | Inr zz \<Rightarrow>
                  (case out ''mean'' of
                     None \<Rightarrow> Inl KeyError
                   | Some mean \<Rightarrow>
                       (case array2_op (*) zz sigmah of
                          Inl e \<Rightarrow> Inl e
                        | Inr spread \<Rightarrow>
                            (case op_array2 (-) mean spread of
                               Inl e \<Rightarrow> Inl e
                             | Inr lower \<Rightarrow>
                                 (case op_array2 (+) mean spread of
                                    Inl e \<Rightarrow> Inl e
                                  | Inr upper \<Rightarrow>
                                      Inr (dict_update
                                            (dict_update Map.empty
                                               (zip (map Lo level) (snd lower)))
                                            (zip (map Hi level) (snd upper)))))))))"

text \<open>
  \<^verbatim>\<open>_calculate_sigma\<close>: \<^verbatim>\<open>residuals ** 2\<close> squares cellwise and keeps NaN,
  \<^verbatim>\<open>np.nansum\<close> adds the cells that are not NaN, and the quotient by the count and the
  square root act on the number obtained.
\<close>

definition power2 :: "real npfloat \<Rightarrow> real npfloat" where
  "power2 x = (case x of NaN \<Rightarrow> NaN | Val v \<Rightarrow> Val (v * v))"

definition np_nansum :: "real npfloat list \<Rightarrow> real npfloat" where
  "np_nansum xs = Val (fold (\<lambda>x acc. case x of NaN \<Rightarrow> acc | Val v \<Rightarrow> acc + v) xs 0)"

definition divide :: "real npfloat \<Rightarrow> int \<Rightarrow> real npfloat" where
  "divide x n = (case x of NaN \<Rightarrow> NaN | Val v \<Rightarrow> Val (v / real_of_int n))"

definition np_sqrt :: "real npfloat \<Rightarrow> real npfloat" where
  "np_sqrt x = (case x of NaN \<Rightarrow> NaN | Val v \<Rightarrow> if v < 0 then NaN else Val (sqrt v))"

definition calculate_sigma :: "real npfloat list \<Rightarrow> int \<Rightarrow> real npfloat" where
  "calculate_sigma residuals n =
     (if n > 0 then
        (let sigma = np_nansum (map power2 residuals);
             sigma = divide sigma n;
             sigma = np_sqrt sigma
         in sigma)
      else Val 0)"

subsection \<open>Conformal intervals configuration\<close>

text \<open>
  The object \<^verbatim>\<open>ConformalIntervals.__init__\<close> builds, as a record of its three
  attributes \<^verbatim>\<open>self.n_windows\<close>, \<^verbatim>\<open>self.h\<close> and \<^verbatim>\<open>self.method\<close>, and the
  constructor, which raises \<^verbatim>\<open>ValueError\<close> on fewer than two windows and on a method
  outside \<^verbatim>\<open>allowed_methods\<close>.
\<close>

record conformal_intervals =
  self_n_windows :: int
  self_h :: int
  self_method :: string

definition allowed_methods :: "string list" where
  "allowed_methods = [''conformal_distribution'']"

definition ConformalIntervals :: "int \<Rightarrow> int \<Rightarrow> string \<Rightarrow> error + conformal_intervals" where
  "ConformalIntervals n_windows h method' =
     (if n_windows < 2 then Inl ValueError
      else if method' \<notin> set allowed_methods then Inl ValueError
      else Inr \<lparr>self_n_windows = n_windows, self_h = h, self_method = method'\<rparr>)"

section \<open>Properties\<close>

subsection \<open>Rounding up a quotient, tiling, slices\<close>

lemma ceil_nonneg:
  fixes h :: nat
  assumes "0 < m"
  shows "0 \<le> - ((- int h) div int m)"
proof -
  from assms have "(- int h) div int m \<le> 0"
    by (simp add: div_int_pos_iff not_less zdiv_mono1_neg div_nonpos_pos_le0)
  then show ?thesis by simp
qed

lemma ceil_covers:
  fixes h :: nat
  assumes m: "0 < m"
  shows "h \<le> nat (- ((- int h) div int m)) * m"
proof -
  define q where "q = (- int h) div int m"
  have "int m * q + (- int h) mod int m = - int h"
    unfolding q_def by simp
  moreover have "0 \<le> (- int h) mod int m"
    using m by simp
  ultimately have "int h \<le> (- q) * int m"
    by (simp add: algebra_simps)
  moreover have "0 \<le> - q"
    unfolding q_def using m by (rule ceil_nonneg)
  ultimately have "int h \<le> int (nat (- q) * m)"
    by simp
  then show ?thesis
    unfolding q_def by linarith
qed

lemma length_tiled: "length (concat (replicate r xs)) = r * length xs"
  by (induction r) simp_all

lemma nth_tiled: "t < r * length xs \<Longrightarrow> concat (replicate r xs) ! t = xs ! (t mod length xs)"
proof (induction r arbitrary: t)
  case 0
  then show ?case by simp
next
  case (Suc r)
  show ?case
  proof (cases "t < length xs")
    case True
    then show ?thesis by (simp add: nth_append)
  next
    case False
    with Suc.prems have "t - length xs < r * length xs" by simp
    from Suc.IH [OF this] False show ?thesis
      by (simp add: nth_append le_mod_geq)
  qed
qed

lemma slice_bound_nat [simp]: "slice_bound n (int k) = min k n"
  by (simp add: slice_bound_def)

lemma repeat_val_seas_cycle:
  fixes h :: nat
  assumes "xs \<noteq> []"
  shows "\<exists>out. repeat_val_seas xs (int h) = Inr out \<and> length out = h \<and>
           (\<forall>t<h. out ! t = xs ! (t mod length xs))"
proof -
  define m where "m = length xs"
  define r where "r = nat (- ((- int h) div int m))"
  have m: "0 < m" using assms by (simp add: m_def)
  have cover: "h \<le> r * m" unfolding r_def using m by (rule ceil_covers)
  have nonneg: "0 \<le> - ((- int h) div int m)" using m by (rule ceil_nonneg)
  have run: "repeat_val_seas xs (int h) = Inr (take h (concat (replicate r xs)))"
    using m nonneg cover
    by (simp add: repeat_val_seas_def ceil_div_def np_tile_def slice_to_def
        length_tiled m_def [symmetric] r_def [symmetric])
  have "take h (concat (replicate r xs)) ! t = xs ! (t mod length xs)" if "t < h" for t
  proof -
    from that cover have "t < r * length xs" by (simp add: m_def)
    with that show ?thesis by (simp add: nth_tiled)
  qed
  with run cover show ?thesis by (simp add: length_tiled m_def)
qed

lemma slice_from_last:
  assumes "k \<le> length y" and "k = 0 \<Longrightarrow> y = []"
  shows "slice_from y (- int k) = drop (length y - k) y"
proof (cases "k = 0")
  case True
  with assms show ?thesis by (simp add: slice_from_def slice_bound_def)
next
  case False
  with assms(1) have "nat (int (length y) - int k) = length y - k" by simp
  with False show ?thesis by (simp add: slice_from_def slice_bound_def)
qed

lemma assign_to_fit:
  assumes "length vs = k" and "k \<le> length xs"
  shows "assign_to xs (int k) vs = Inr (vs @ drop k xs)"
  using assms by (simp add: assign_to_def broadcast_to_def)

lemma season_template_eq:
  assumes "1 \<le> m"
  shows "season_template cast y (int m) =
           Inr (map cast (drop (length y - m) y) @ replicate (m - length y) NaN)"
proof -
  define k where "k = min m (length y)"
  have samples: "min (int m) (int (length y)) = int k" by (simp add: k_def)
  have "k = 0 \<Longrightarrow> y = []" using assms by (simp add: k_def min_def split: if_splits)
  then have rhs: "slice_from y (- int k) = drop (length y - k) y"
    by (intro slice_from_last) (simp_all add: k_def)
  have len: "length (map cast (drop (length y - k) y)) = k" by (simp add: k_def)
  have store: "assign_to (replicate m NaN) (int k) (map cast (drop (length y - k) y)) =
      Inr (map cast (drop (length y - k) y) @ drop k (replicate m NaN))"
    using len by (rule assign_to_fit) (simp add: k_def)
  have "length y - k = length y - m" and "m - k = m - length y"
    by (simp_all add: k_def)
  with store show ?thesis
    by (simp add: season_template_def np_full_def samples rhs)
qed

subsection \<open>What the seasonal naive forecaster returns\<close>

lemma assign_from_fit:
  assumes "length vs = length xs - k" and "k \<le> length xs"
  shows "assign_from xs (int k) vs = Inr (take k xs @ vs)"
  using assms by (simp add: assign_from_def broadcast_to_def)

lemma seasonal_fitted_eq:
  assumes "1 \<le> m"
  shows "(let fitted_vals = fill_to (np_empty junk (length y)) (int m) NaN
          in if int (length y) > int m then
               assign_from fitted_vals (int m) (map cast (slice_to y (int (length y) - int m)))
             else Inr fitted_vals) =
         Inr (replicate (min m (length y)) NaN @ map cast (take (length y - m) y))"
proof (cases "m < length y")
  case True
  define F where "F = fill_to (np_empty junk (length y)) (int m) NaN"
  have F: "F = replicate m NaN @ drop m (map junk [0..<length y])"
    using True by (simp add: F_def fill_to_def np_empty_def)
  have "nat (int (length y) - int m) = length y - m" by simp
  with True have src: "slice_to y (int (length y) - int m) = take (length y - m) y"
    by (simp add: slice_to_def slice_bound_def)
  have "assign_from F (int m) (map cast (take (length y - m) y)) =
      Inr (take m F @ map cast (take (length y - m) y))"
    using True by (intro assign_from_fit) (simp_all add: F)
  then have "assign_from F (int m) (map cast (slice_to y (int (length y) - int m))) =
      Inr (replicate m NaN @ map cast (take (length y - m) y))"
    by (simp add: src F)
  moreover have "min m (length y) = m" using True by simp
  ultimately show ?thesis
    using True unfolding Let_def F_def by (simp only: of_nat_less_iff if_True)
next
  case False
  then show ?thesis
    by (simp add: fill_to_def np_empty_def min_def)
qed

lemma seasonal_naive_run:
  fixes h :: nat
  assumes "1 \<le> m"
  shows "\<exists>out. seasonal_naive cast junk y (int h) fit (int m) =
           Inr (if fit
                then [''mean'' \<mapsto> out,
                      ''fitted'' \<mapsto> replicate (min m (length y)) NaN @
                                       map cast (take (length y - m) y)]
                else [''mean'' \<mapsto> out]) \<and>
           length out = h \<and>
           (\<forall>t<h. out ! t =
              (map cast (drop (length y - m) y) @ replicate (m - length y) NaN) ! (t mod m))"
proof -
  define T where "T = map cast (drop (length y - m) y) @ replicate (m - length y) NaN"
  have lenT: "length T = m" by (simp add: T_def)
  with assms have "T \<noteq> []" by auto
  then obtain out where out: "repeat_val_seas T (int h) = Inr out" "length out = h"
    "\<forall>t<h. out ! t = T ! (t mod length T)"
    using repeat_val_seas_cycle by blast
  have tmpl: "season_template cast y (int m) = Inr T"
    unfolding T_def using assms by (rule season_template_eq)
  have "seasonal_naive cast junk y (int h) fit (int m) =
      Inr (if fit
           then [''mean'' \<mapsto> out,
                 ''fitted'' \<mapsto> replicate (min m (length y)) NaN @
                                  map cast (take (length y - m) y)]
           else [''mean'' \<mapsto> out])"
  proof (cases fit)
    case True
    have "seasonal_naive cast junk y (int h) True (int m) =
       (case (let fitted_vals = fill_to (np_empty junk (length y)) (int m) NaN
          in if int (length y) > int m then
               assign_from fitted_vals (int m) (map cast (slice_to y (int (length y) - int m)))
             else Inr fitted_vals) of Inl e \<Rightarrow> Inl e
          | Inr fv \<Rightarrow> Inr ([''mean'' \<mapsto> out](''fitted'' \<mapsto> fv)))"
      unfolding seasonal_naive_def tmpl out(1) Let_def sum.case
      by (simp split: sum.splits)
    also have "\<dots> = Inr ([''mean'' \<mapsto> out](''fitted'' \<mapsto>
         replicate (min m (length y)) NaN @ map cast (take (length y - m) y)))"
      by (simp only: seasonal_fitted_eq [OF assms] sum.case)
    finally show ?thesis
      by (simp only: True if_True)
  next
    case False
    show ?thesis
      unfolding seasonal_naive_def tmpl out(1) Let_def sum.case
      by (simp only: False if_False)
  qed
  moreover have "\<forall>t<h. out ! t = T ! (t mod m)"
    using out(3) lenT by simp
  ultimately show ?thesis
    using out(2) unfolding T_def by (intro exI [of _ out] conjI)
qed

subsection \<open>The float32 conversion of integers\<close>

lemma bit_length_numeral:
  "bit_length 0 = 0"
  "bit_length (Suc 0) = 1"
  "bit_length (numeral k) = bit_length (numeral k div 2) + 1"
  by (simp_all add: bit_length.simps [of 0] bit_length.simps [of "Suc 0"]
      bit_length.simps [of "numeral k"])

text \<open>\<open>2^24 + 1\<close> is the first integer that float32 cannot hold.\<close>

lemma float32_of_int_values:
  "float32_of_int 5 = Val 5"
  "float32_of_int 16777216 = Val 16777216"
  "float32_of_int 16777217 = Val 16777216"
  "float32_of_int 16777219 = Val 16777220"
  "float32_of_int (- 16777217) = Val (- 16777216)"
  by (simp_all add: float32_of_int_def bit_length_numeral)

lemma bit_length_bound: "n < 2 ^ k \<Longrightarrow> bit_length n \<le> k"
proof (induction k arbitrary: n)
  case 0
  then have "n = 0" by simp
  then show ?case by (simp add: bit_length.simps [of 0])
next
  case (Suc k)
  then have "n div 2 < 2 ^ k" by (simp add: less_mult_imp_div_less mult.commute)
  then have "bit_length (n div 2) \<le> k" by (rule Suc.IH)
  then show ?case by (simp add: bit_length.simps [of n])
qed

text \<open>Below \<open>2^24\<close> in magnitude the conversion changes nothing.\<close>

lemma float32_of_int_exact:
  assumes "\<bar>x\<bar> < 2 ^ 24"
  shows "float32_of_int x = Val x"
proof -
  from assms have "\<bar>x\<bar> < int (2 ^ 24)" by simp
  then have "nat \<bar>x\<bar> < 2 ^ 24" by (simp only: nat_less_iff [OF abs_ge_zero])
  then have "bit_length (nat \<bar>x\<bar>) \<le> 24" by (rule bit_length_bound)
  then have q: "(2::int) ^ (bit_length (nat \<bar>x\<bar>) - 24) = 1" by simp
  have "sgn x * \<bar>x\<bar> = x" by (rule mult_sgn_abs)
  then show ?thesis
    unfolding float32_of_int_def Let_def q by simp
qed

subsection \<open>The season template\<close>

text \<open>
  Equality of cells is equality of values: two NaN cells are equal, as for
  \<^verbatim>\<open>np.testing.assert_equal\<close>, and a cell taken from \<open>y\<close> is compared after its
  conversion to the output dtype, \<open>cast\<close>. The horizon and the season length are
  numbers of steps; the theorems take them as naturals and hand them to the code as
  Python integers.
\<close>

text \<open>
  Claim C1, as stated, at \<open>y = [7]\<close> and season length 3: the template is
  \<open>[7, NaN, NaN]\<close>. Its last cell is not \<open>y[0]\<close> and its first cell is not NaN, so
  it is not right-aligned.
\<close>

theorem season_template_right_aligned_counterexample:
  "season_template Val [7::int] 3 = Inr [Val 7, NaN, NaN] \<and>
   \<not> (slice_from [Val 7, NaN, NaN] (3 - 1) = map Val (slice_to [7::int] 1) \<and>
      [Val (7::int), NaN, NaN] ! 0 = NaN \<and> [Val (7::int), NaN, NaN] ! 1 = NaN)"
  by code_simp

text \<open>
  Claim C1, amended: for a series \<open>y\<close> of length \<open>n < m\<close> the season template has
  length \<open>m\<close> and is left-aligned: \<open>template[0 : n]\<close> equals \<open>y[0 : n]\<close> and the
  trailing \<open>m - n\<close> positions are NaN.
\<close>

theorem season_template_left_aligned:
  assumes "length y < m"
  shows "\<exists>T. season_template cast y (int m) = Inr T \<and> length T = m \<and>
           take (length y) T = map cast y \<and>
           (\<forall>i. length y \<le> i \<and> i < m \<longrightarrow> T ! i = NaN)"
proof -
  from assms have m: "1 \<le> m" by simp
  from assms have "length y - m = 0" by simp
  then have "season_template cast y (int m) = Inr (map cast y @ replicate (m - length y) NaN)"
    using season_template_eq [OF m, of cast y] by simp
  moreover have "(map cast y @ replicate (m - length y) NaN) ! i = NaN"
    if "length y \<le> i" "i < m" for i
    using that by (simp add: nth_append)
  ultimately show ?thesis using assms by simp
qed

theorem season_template_left_aligned_witness:
  "length [7::int, 8] < 5 \<and>
   season_template Val [7::int, 8] (int 5) = Inr [Val 7, Val 8, NaN, NaN, NaN]"
proof -
  have short: "length [7::int, 8] < 5" by simp
  from season_template_left_aligned [OF short, of Val]
  obtain T where "season_template Val [7::int, 8] (int 5) = Inr T" and "length T = 5"
    by blast
  moreover have "season_template Val [7::int, 8] (int 5) = Inr [Val 7, Val 8, NaN, NaN, NaN]"
    by code_simp
  ultimately show ?thesis using short by simp
qed

subsection \<open>The seasonal naive forecast\<close>

text \<open>
  Claim C2, as stated, at the int64 series \<open>y = [16777217, 5]\<close> with season length 2
  and horizon 2: the mean is \<open>[16777216, 5]\<close>, because the template is a float32 array
  and \<open>2^24 + 1\<close> is rounded on the way in. So \<open>mean[0]\<close> is not \<open>y[n - m + 0]\<close>.
\<close>

theorem seasonal_naive_periodic_counterexample:
  "seasonal_naive float32_of_int (Val \<circ> int) [16777217, 5] 2 False 2 =
     Inr [''mean'' \<mapsto> [Val 16777216, Val 5]] \<and>
   (16777216::int) \<noteq> [16777217, 5] ! (2 - 2 + 0 mod 2)"
  by (simp add: seasonal_naive_def season_template_def np_full_def assign_to_def
      broadcast_to_def slice_from_def slice_to_def slice_bound_def repeat_val_seas_def
      ceil_div_def np_tile_def float32_of_int_values)

text \<open>
  Claim C2, amended: for a series \<open>y\<close> of length \<open>n\<close>, a horizon \<open>h\<close> and a season length
  \<open>m\<close> with \<open>1 \<le> m \<le> n\<close>, the seasonal naive forecaster returns a mean of length \<open>h\<close>
  in which \<open>mean[t]\<close> is \<open>y[n - m + (t mod m)]\<close> converted to float32, for every
  \<open>t < h\<close>.
\<close>

theorem seasonal_naive_periodic:
  fixes h :: nat
  assumes "1 \<le> m" and "m \<le> length y"
  shows "\<exists>fcst out. seasonal_naive cast junk y (int h) fit (int m) = Inr fcst \<and>
           fcst ''mean'' = Some out \<and> length out = h \<and>
           (\<forall>t<h. out ! t = cast (y ! (length y - m + t mod m)))"
proof -
  from seasonal_naive_run [OF assms(1), of cast junk y h fit]
  obtain out where run: "seasonal_naive cast junk y (int h) fit (int m) =
           Inr (if fit
                then [''mean'' \<mapsto> out,
                      ''fitted'' \<mapsto> replicate (min m (length y)) NaN @
                                       map cast (take (length y - m) y)]
                else [''mean'' \<mapsto> out])"
    and len: "length out = h"
    and cyc: "\<forall>t<h. out ! t =
              (map cast (drop (length y - m) y) @ replicate (m - length y) NaN) ! (t mod m)"
    by blast
  have "out ! t = cast (y ! (length y - m + t mod m))" if "t < h" for t
  proof -
    from assms have "t mod m < m" by simp
    with assms cyc that show ?thesis by (simp add: nth_append)
  qed
  moreover have "(if fit
                then [''mean'' \<mapsto> out,
                      ''fitted'' \<mapsto> replicate (min m (length y)) NaN @
                                       map cast (take (length y - m) y)]
                else [''mean'' \<mapsto> out]) ''mean'' = Some out"
    by simp
  ultimately show ?thesis using run len by blast
qed

theorem seasonal_naive_periodic_witness:
  "1 \<le> (3::nat) \<and> 3 \<le> length [1::int, 2, 3, 4, 5] \<and>
   map_sum id (\<lambda>fcst. fcst ''mean'')
     (seasonal_naive Val (\<lambda>i. NaN) [1::int, 2, 3, 4, 5] (int 7) False (int 3)) =
     Inr (Some [Val 3, Val 4, Val 5, Val 3, Val 4, Val 5, Val 3])"
proof -
  have m: "1 \<le> (3::nat)" and n: "3 \<le> length [1::int, 2, 3, 4, 5]" by simp_all
  from seasonal_naive_periodic [OF m n, of Val "\<lambda>i. NaN" 7 False]
  obtain fcst where
    "seasonal_naive Val (\<lambda>i. NaN) [1::int, 2, 3, 4, 5] (int 7) False (int 3) = Inr fcst"
    by blast
  moreover have "map_sum id (\<lambda>fcst. fcst ''mean'')
     (seasonal_naive Val (\<lambda>i. NaN) [1::int, 2, 3, 4, 5] (int 7) False (int 3)) =
     Inr (Some [Val 3, Val 4, Val 5, Val 3, Val 4, Val 5, Val 3])"
    by code_simp
  ultimately show ?thesis using m n by simp
qed

text \<open>
  Claim C3: for a series \<open>y\<close> of length \<open>n < m\<close>, the last \<open>m - n\<close> positions of the
  season template are NaN, and in the mean every position \<open>t\<close> with \<open>t mod m \<ge> n\<close> is
  NaN: the NaNs come back at the same offsets in every repetition.
\<close>

theorem seasonal_naive_short_history_nan:
  fixes h :: nat
  assumes "length y < m"
  shows "\<exists>T fcst out. season_template cast y (int m) = Inr T \<and> length T = m \<and>
           (\<forall>i. length y \<le> i \<and> i < m \<longrightarrow> T ! i = NaN) \<and>
           seasonal_naive cast junk y (int h) fit (int m) = Inr fcst \<and>
           fcst ''mean'' = Some out \<and> length out = h \<and>
           (\<forall>t<h. length y \<le> t mod m \<longrightarrow> out ! t = NaN)"
proof -
  from assms have m: "1 \<le> m" by simp
  define T where "T = map cast (drop (length y - m) y) @ replicate (m - length y) NaN"
  have tmpl: "season_template cast y (int m) = Inr T"
    unfolding T_def using m by (rule season_template_eq)
  have lenT: "length T = m" using assms by (simp add: T_def)
  have tail: "T ! i = NaN" if "length y \<le> i" "i < m" for i
    using that assms by (simp add: T_def nth_append)
  from seasonal_naive_run [OF m, of cast junk y h fit]
  obtain out where run: "seasonal_naive cast junk y (int h) fit (int m) =
           Inr (if fit
                then [''mean'' \<mapsto> out,
                      ''fitted'' \<mapsto> replicate (min m (length y)) NaN @
                                       map cast (take (length y - m) y)]
                else [''mean'' \<mapsto> out])"
    and len: "length out = h"
    and cyc: "\<forall>t<h. out ! t = T ! (t mod m)"
    unfolding T_def by blast
  have "out ! t = NaN" if "t < h" "length y \<le> t mod m" for t
  proof -
    from m have "t mod m < m" by simp
    with that cyc show ?thesis by (simp add: tail)
  qed
  moreover have "(if fit
                then [''mean'' \<mapsto> out,
                      ''fitted'' \<mapsto> replicate (min m (length y)) NaN @
                                       map cast (take (length y - m) y)]
                else [''mean'' \<mapsto> out]) ''mean'' = Some out"
    by simp
  ultimately show ?thesis using tmpl lenT tail run len by blast
qed

theorem seasonal_naive_short_history_nan_witness:
  "length [7::int, 8] < 3 \<and>
   season_template Val [7::int, 8] (int 3) = Inr [Val 7, Val 8, NaN] \<and>
   map_sum id (\<lambda>fcst. fcst ''mean'')
     (seasonal_naive Val (\<lambda>i. NaN) [7::int, 8] (int 7) False (int 3)) =
     Inr (Some [Val 7, Val 8, NaN, Val 7, Val 8, NaN, Val 7])"
proof -
  have short: "length [7::int, 8] < 3" by simp
  from seasonal_naive_short_history_nan [OF short, of Val "\<lambda>i. NaN" 7 False]
  obtain T fcst out where "season_template Val [7::int, 8] (int 3) = Inr T"
    and "seasonal_naive Val (\<lambda>i. NaN) [7::int, 8] (int 7) False (int 3) = Inr fcst"
    and "fcst ''mean'' = Some out"
    by blast
  moreover have "season_template Val [7::int, 8] (int 3) = Inr [Val 7, Val 8, NaN]"
    by code_simp
  moreover have "map_sum id (\<lambda>fcst. fcst ''mean'')
     (seasonal_naive Val (\<lambda>i. NaN) [7::int, 8] (int 7) False (int 3)) =
     Inr (Some [Val 7, Val 8, NaN, Val 7, Val 8, NaN, Val 7])"
    by code_simp
  ultimately show ?thesis using short by simp
qed

subsection \<open>The seasonal naive fitted values\<close>

text \<open>
  Claim C4, as stated, at the int64 series \<open>y = [16777217, 5]\<close> with season length 1:
  the fitted array is \<open>[NaN, 16777216]\<close>, because it is a float32 array and
  \<open>2^24 + 1\<close> is rounded on the way in. So \<open>fitted[1]\<close> is not \<open>y[0]\<close>.
\<close>

theorem seasonal_naive_fitted_counterexample:
  "seasonal_naive float32_of_int (Val \<circ> int) [16777217, 5] 1 True 1 =
     Inr [''mean'' \<mapsto> [Val 5], ''fitted'' \<mapsto> [NaN, Val 16777216]] \<and>
   (16777216::int) \<noteq> [16777217, 5] ! (1 - 1)"
  by (simp add: seasonal_naive_def season_template_def np_full_def assign_to_def
      broadcast_to_def slice_from_def slice_to_def slice_bound_def repeat_val_seas_def
      ceil_div_def np_tile_def float32_of_int_values fill_to_def np_empty_def
      assign_from_def)

text \<open>
  Claim C4, amended: for a series \<open>y\<close> of length \<open>n\<close>, a horizon \<open>h\<close> and a season length
  \<open>m\<close> (at least 1, as the forecaster's contract has it), when fitted values are
  requested the fitted array has length \<open>n\<close>, its first \<open>min(m, n)\<close> positions are NaN,
  positions \<open>m..n-1\<close> hold \<open>y[0..n-m-1]\<close> converted to float32, and for \<open>n \<le> m\<close> the
  whole array is NaN. No cell keeps what \<^verbatim>\<open>np.empty\<close> left in it.
\<close>

theorem seasonal_naive_fitted:
  fixes h :: nat
  assumes "1 \<le> m"
  shows "\<exists>fcst fitted_vals.
           seasonal_naive cast junk y (int h) True (int m) = Inr fcst \<and>
           fcst ''fitted'' = Some fitted_vals \<and> length fitted_vals = length y \<and>
           (\<forall>i<min m (length y). fitted_vals ! i = NaN) \<and>
           (\<forall>i. m \<le> i \<and> i < length y \<longrightarrow> fitted_vals ! i = cast (y ! (i - m))) \<and>
           (length y \<le> m \<longrightarrow> fitted_vals = replicate (length y) NaN)"
proof -
  define F where "F = replicate (min m (length y)) NaN @ map cast (take (length y - m) y)"
  from seasonal_naive_run [OF assms, of cast junk y h True]
  obtain out where run: "seasonal_naive cast junk y (int h) True (int m) =
           Inr [''mean'' \<mapsto> out, ''fitted'' \<mapsto> F]"
    unfolding F_def by auto
  have "[''mean'' \<mapsto> out, ''fitted'' \<mapsto> F] ''fitted'' = Some F" by simp
  moreover have "length F = length y" by (simp add: F_def)
  moreover have "\<forall>i<min m (length y). F ! i = NaN" by (simp add: F_def nth_append)
  moreover have "\<forall>i. m \<le> i \<and> i < length y \<longrightarrow> F ! i = cast (y ! (i - m))"
    by (auto simp: F_def nth_append)
  moreover have "length y \<le> m \<longrightarrow> F = replicate (length y) NaN"
    by (simp add: F_def min_def)
  ultimately show ?thesis using run by blast
qed

theorem seasonal_naive_fitted_witness:
  "1 \<le> (2::nat) \<and>
   map_sum id (\<lambda>fcst. fcst ''fitted'')
     (seasonal_naive Val (\<lambda>i. Val 99) [1::int, 2, 3, 4, 5] (int 3) True (int 2)) =
     Inr (Some [NaN, NaN, Val 1, Val 2, Val 3])"
proof -
  have m: "1 \<le> (2::nat)" by simp
  from seasonal_naive_fitted [OF m, of Val "\<lambda>i. Val 99" "[1::int, 2, 3, 4, 5]" 3]
  obtain fcst where
    "seasonal_naive Val (\<lambda>i. Val 99) [1::int, 2, 3, 4, 5] (int 3) True (int 2) = Inr fcst"
    by blast
  moreover have "map_sum id (\<lambda>fcst. fcst ''fitted'')
     (seasonal_naive Val (\<lambda>i. Val 99) [1::int, 2, 3, 4, 5] (int 3) True (int 2)) =
     Inr (Some [NaN, NaN, Val 1, Val 2, Val 3])"
    by code_simp
  ultimately show ?thesis using m by simp
qed

subsection \<open>What the naive forecaster returns\<close>

lemma item_last:
  assumes "y \<noteq> []"
  shows "item y (- 1) = Inr (y ! (length y - 1))"
proof -
  from assms have "0 < length y" by simp
  then have "nat (int (length y) - 1) = length y - 1" by simp
  with \<open>0 < length y\<close> show ?thesis by (simp add: item_def)
qed

lemma roll_one_tail:
  "slice_from (np_roll y 1) 1 = take (length y - 1) y"
proof (cases "length y \<le> 1")
  case True
  then have "y = [] \<or> (\<exists>a. y = [a])" by (cases y) auto
  then show ?thesis by (auto simp: np_roll_def slice_from_def slice_bound_def)
next
  case False
  then have "(1::int) mod int (length y) = 1" by simp
  with False show ?thesis
    by (auto simp: np_roll_def slice_from_def slice_bound_def Let_def)
qed

lemma naive_fitted_eq:
  assumes "y \<noteq> []"
  shows "assign_from (replicate (length y) NaN) 1 (map cast (slice_from (np_roll y 1) 1)) =
           Inr (NaN # map cast (take (length y - 1) y))"
proof -
  from assms have "0 < length y" by simp
  then show ?thesis
    unfolding roll_one_tail
    by (simp add: assign_from_def broadcast_to_def slice_bound_def take_Suc_conv_app_nth
        replicate_append_same [symmetric] del: replicate_Suc)
       (cases "length y", simp_all)
qed

lemma naive_run:
  fixes h :: nat
  assumes "y \<noteq> []"
  shows "naive cast y (int h) fit =
           Inr (if fit
                then [''mean'' \<mapsto> replicate h (cast (y ! (length y - 1))),
                      ''fitted'' \<mapsto> NaN # map cast (take (length y - 1) y)]
                else [''mean'' \<mapsto> replicate h (cast (y ! (length y - 1)))])"
proof (cases fit)
  case True
  show ?thesis
    unfolding naive_def item_last [OF assms] repeat_val_def np_full_def Let_def
    by (simp add: True naive_fitted_eq [OF assms])
next
  case False
  show ?thesis
    unfolding naive_def item_last [OF assms] repeat_val_def np_full_def Let_def
    by (simp add: False)
qed

subsection \<open>The naive forecaster\<close>

text \<open>
  Claim C5, as stated, at the int64 series \<open>y = [16777217]\<close> with horizon 1: the mean
  is \<open>[16777216]\<close>, because \<^verbatim>\<open>np.full(h, val, np.float32)\<close> rounds \<open>2^24 + 1\<close>. So
  the entry is not \<open>y[n-1]\<close>.
\<close>

theorem naive_mean_counterexample:
  "naive float32_of_int [16777217] 1 False = Inr [''mean'' \<mapsto> [Val 16777216]] \<and>
   (16777216::int) \<noteq> [16777217] ! (1 - 1)"
  by (simp add: naive_def item_def repeat_val_def np_full_def float32_of_int_values)

text \<open>
  Claim C5, amended: for a series \<open>y\<close> of length \<open>n \<ge> 1\<close> and a horizon \<open>h \<ge> 0\<close>, the
  mean of the naive forecaster is an array of length \<open>h\<close> whose every entry is \<open>y[n-1]\<close>
  converted to float32; for \<open>h = 0\<close> it is the empty array.
\<close>

theorem naive_mean:
  fixes h :: nat
  assumes "1 \<le> length y"
  shows "\<exists>fcst out. naive cast y (int h) fit = Inr fcst \<and> fcst ''mean'' = Some out \<and>
           length out = h \<and> (\<forall>t<h. out ! t = cast (y ! (length y - 1))) \<and>
           (h = 0 \<longrightarrow> out = [])"
proof -
  from assms have "y \<noteq> []" by auto
  then have "naive cast y (int h) fit =
           Inr (if fit
                then [''mean'' \<mapsto> replicate h (cast (y ! (length y - 1))),
                      ''fitted'' \<mapsto> NaN # map cast (take (length y - 1) y)]
                else [''mean'' \<mapsto> replicate h (cast (y ! (length y - 1)))])"
    by (rule naive_run)
  moreover have "(if fit
                then [''mean'' \<mapsto> replicate h (cast (y ! (length y - 1))),
                      ''fitted'' \<mapsto> NaN # map cast (take (length y - 1) y)]
                else [''mean'' \<mapsto> replicate h (cast (y ! (length y - 1)))]) ''mean'' =
      Some (replicate h (cast (y ! (length y - 1))))"
    by simp
  ultimately show ?thesis by simp
qed

theorem naive_mean_witness:
  "1 \<le> length [4::int, 5, 6] \<and>
   map_sum id (\<lambda>fcst. fcst ''mean'') (naive Val [4::int, 5, 6] (int 3) False) =
     Inr (Some [Val 6, Val 6, Val 6]) \<and>
   map_sum id (\<lambda>fcst. fcst ''mean'') (naive Val [4::int, 5, 6] (int 0) False) =
     Inr (Some [])"
proof -
  have n: "1 \<le> length [4::int, 5, 6]" by simp
  from naive_mean [OF n, of Val 3 False]
  obtain fcst where "naive Val [4::int, 5, 6] (int 3) False = Inr fcst"
    by blast
  moreover have "map_sum id (\<lambda>fcst. fcst ''mean'') (naive Val [4::int, 5, 6] (int 3) False) =
     Inr (Some [Val 6, Val 6, Val 6])"
    by code_simp
  moreover have "map_sum id (\<lambda>fcst. fcst ''mean'') (naive Val [4::int, 5, 6] (int 0) False) =
     Inr (Some [])"
    by code_simp
  ultimately show ?thesis using n by simp
qed

text \<open>
  Claim C6, as stated, at the int64 series \<open>y = [16777217, 5]\<close>: the fitted array is
  \<open>[NaN, 16777216]\<close>, because it is a float32 array and \<open>2^24 + 1\<close> is rounded on the
  way in. So \<open>fitted[1]\<close> is not \<open>y[0]\<close>.
\<close>

theorem naive_fitted_lag_counterexample:
  "naive float32_of_int [16777217, 5] 1 True =
     Inr [''mean'' \<mapsto> [Val 5], ''fitted'' \<mapsto> [NaN, Val 16777216]] \<and>
   (16777216::int) \<noteq> [16777217, 5] ! (1 - 1)"
  by (simp add: naive_def item_def repeat_val_def np_full_def float32_of_int_values
      assign_from_def broadcast_to_def slice_from_def slice_bound_def np_roll_def)

text \<open>
  Claim C6, amended: for a series \<open>y\<close> of length \<open>n \<ge> 2\<close> and a horizon \<open>h\<close>, when fitted
  values are requested the fitted array of the naive forecaster has length \<open>n\<close>,
  \<open>fitted[0]\<close> is NaN, and \<open>fitted[t]\<close> is \<open>y[t-1]\<close> converted to float32 for every \<open>t\<close>
  in \<open>1..n-1\<close>.
\<close>

theorem naive_fitted_lag:
  fixes h :: nat
  assumes "2 \<le> length y"
  shows "\<exists>fcst fitted_vals. naive cast y (int h) True = Inr fcst \<and>
           fcst ''fitted'' = Some fitted_vals \<and> length fitted_vals = length y \<and>
           fitted_vals ! 0 = NaN \<and>
           (\<forall>t. 1 \<le> t \<and> t < length y \<longrightarrow> fitted_vals ! t = cast (y ! (t - 1)))"
proof -
  define F where "F = NaN # map cast (take (length y - 1) y)"
  from assms have "y \<noteq> []" by auto
  then have "naive cast y (int h) True =
      Inr [''mean'' \<mapsto> replicate h (cast (y ! (length y - 1))), ''fitted'' \<mapsto> F]"
    unfolding F_def using naive_run [of y cast h True] by simp
  moreover have "[''mean'' \<mapsto> replicate h (cast (y ! (length y - 1))), ''fitted'' \<mapsto> F]
      ''fitted'' = Some F"
    by simp
  moreover have "length F = length y" using assms by (simp add: F_def)
  moreover have "F ! 0 = NaN" by (simp add: F_def)
  moreover have "F ! t = cast (y ! (t - 1))" if "1 \<le> t" "t < length y" for t
    using that by (simp add: F_def nth_Cons')
  ultimately show ?thesis by blast
qed

theorem naive_fitted_lag_witness:
  "2 \<le> length [4::int, 5, 6] \<and>
   map_sum id (\<lambda>fcst. fcst ''fitted'') (naive Val [4::int, 5, 6] (int 2) True) =
     Inr (Some [NaN, Val 4, Val 5])"
proof -
  have n: "2 \<le> length [4::int, 5, 6]" by simp
  from naive_fitted_lag [OF n, of Val 2]
  obtain fcst where "naive Val [4::int, 5, 6] (int 2) True = Inr fcst"
    by blast
  moreover have "map_sum id (\<lambda>fcst. fcst ''fitted'') (naive Val [4::int, 5, 6] (int 2) True) =
     Inr (Some [NaN, Val 4, Val 5])"
    by code_simp
  ultimately show ?thesis using n by simp
qed

subsection \<open>Season length one\<close>

text \<open>
  Claim C10: for a series \<open>y\<close> of length \<open>n \<ge> 1\<close>, a horizon \<open>h \<ge> 0\<close> and either value of
  the fitted flag, the seasonal naive forecaster with season length 1 returns what the
  naive forecaster returns: the same dictionary, with equal mean arrays and, when
  requested, equal fitted arrays, NaN cells included.
\<close>

theorem seasonal_naive_one_is_naive:
  fixes h :: nat
  assumes "1 \<le> length y"
  shows "seasonal_naive cast junk y (int h) fit 1 = naive cast y (int h) fit \<and>
         (\<exists>fcst. naive cast y (int h) fit = Inr fcst)"
proof -
  from assms have ne: "y \<noteq> []" by auto
  define v where "v = cast (y ! (length y - 1))"
  have last_cell: "map cast (drop (length y - 1) y) = [v]"
  proof -
    from ne have "drop (length y - 1) y = [y ! (length y - 1)]"
      by (metis append_butlast_last_id append_eq_conv_conj last_conv_nth length_butlast)
    then show ?thesis by (simp add: v_def)
  qed
  from seasonal_naive_run [of 1 cast junk y h fit]
  obtain out where run: "seasonal_naive cast junk y (int h) fit 1 =
           Inr (if fit
                then [''mean'' \<mapsto> out,
                      ''fitted'' \<mapsto> replicate (min 1 (length y)) NaN @
                                       map cast (take (length y - 1) y)]
                else [''mean'' \<mapsto> out])"
    and len: "length out = h"
    and cyc: "\<forall>t<h. out ! t =
              (map cast (drop (length y - 1) y) @ replicate (1 - length y) NaN) ! (t mod 1)"
    by auto
  from cyc last_cell have "\<forall>t<h. out ! t = v" by simp
  with len have out: "out = replicate h v"
    by (simp add: list_eq_iff_nth_eq)
  from assms have "replicate (min 1 (length y)) (NaN :: 'b npfloat) = [NaN]"
    by (simp add: min_def)
  with run out have "seasonal_naive cast junk y (int h) fit 1 =
           Inr (if fit
                then [''mean'' \<mapsto> replicate h v,
                      ''fitted'' \<mapsto> NaN # map cast (take (length y - 1) y)]
                else [''mean'' \<mapsto> replicate h v])"
    by simp
  also have "\<dots> = naive cast y (int h) fit"
    unfolding v_def using naive_run [OF ne, of cast h fit] by simp
  finally show ?thesis using naive_run [OF ne, of cast h fit] by simp
qed

theorem seasonal_naive_one_is_naive_witness:
  "1 \<le> length [4::int, 5, 6] \<and>
   seasonal_naive Val (\<lambda>i. Val 0) [4::int, 5, 6] (int 2) True 1 =
     naive Val [4::int, 5, 6] (int 2) True \<and>
   map_sum id (\<lambda>fcst. (fcst ''mean'', fcst ''fitted''))
     (naive Val [4::int, 5, 6] (int 2) True) =
     Inr (Some [Val 6, Val 6], Some [NaN, Val 4, Val 5])"
proof -
  have n: "1 \<le> length [4::int, 5, 6]" by simp
  have "map_sum id (\<lambda>fcst. (fcst ''mean'', fcst ''fitted''))
     (naive Val [4::int, 5, 6] (int 2) True) =
     Inr (Some [Val 6, Val 6], Some [NaN, Val 4, Val 5])"
    by code_simp
  with seasonal_naive_one_is_naive [OF n, of Val "\<lambda>i. Val 0" 2 True] n
  show ?thesis by simp
qed

subsection \<open>The conformal intervals configuration\<close>

text \<open>
  Claim C9: constructing the configuration raises exactly when \<open>n_windows < 2\<close> or the
  method is not the recognised \<^verbatim>\<open>"conformal_distribution"\<close>; otherwise the object holds
  \<open>n_windows\<close>, \<open>h\<close> and the method as given.
\<close>

theorem ConformalIntervals_validation:
  "(ConformalIntervals n_windows h method' = Inl ValueError \<longleftrightarrow>
      (n_windows < 2 \<or> method' \<notin> {''conformal_distribution''})) \<and>
   (\<forall>c. ConformalIntervals n_windows h method' = Inr c \<longrightarrow>
      self_n_windows c = n_windows \<and> self_h c = h \<and> self_method c = method') \<and>
   (\<not> (n_windows < 2 \<or> method' \<notin> {''conformal_distribution''}) \<longrightarrow>
      ConformalIntervals n_windows h method' =
        Inr \<lparr>self_n_windows = n_windows, self_h = h, self_method = method'\<rparr>)"
  by (auto simp: ConformalIntervals_def allowed_methods_def)

theorem ConformalIntervals_validation_witness:
  "ConformalIntervals 1 3 ''conformal_distribution'' = Inl ValueError \<and>
   ConformalIntervals 2 3 ''bootstrap'' = Inl ValueError \<and>
   ConformalIntervals 2 3 ''conformal_distribution'' =
     Inr \<lparr>self_n_windows = 2, self_h = 3, self_method = ''conformal_distribution''\<rparr>"
  using ConformalIntervals_validation [of 1 3 "''conformal_distribution''"]
    ConformalIntervals_validation [of 2 3 "''bootstrap''"]
    ConformalIntervals_validation [of 2 3 "''conformal_distribution''"]
  by (simp add: ConformalIntervals_def allowed_methods_def)

subsection \<open>The sigma estimator\<close>

lemma nansum_fold:
  "fold (\<lambda>x acc. case x of NaN \<Rightarrow> acc | Val v \<Rightarrow> acc + v) (map power2 rs) a =
     a + sum_list [v * v. Val v \<leftarrow> rs]"
proof (induction rs arbitrary: a)
  case Nil
  then show ?case by simp
next
  case (Cons r rs)
  then show ?case by (cases r) (simp_all add: power2_def)
qed

lemma sum_squares_nonneg: "0 \<le> sum_list [v * v. Val v \<leftarrow> rs]" for rs :: "real npfloat list"
proof (induction rs)
  case Nil
  then show ?case by simp
next
  case (Cons r rs)
  then show ?case by (cases r) simp_all
qed

text \<open>
  Claim C8: called with the count \<open>n = 0\<close>, the sigma estimator returns exactly 0
  whatever the residuals hold, NaN cells included; for every \<open>n > 0\<close> it returns the
  square root of the sum of the squares of the residuals that are not NaN, divided by
  \<open>n\<close>.
\<close>

theorem calculate_sigma_zero_count:
  "calculate_sigma residuals 0 = Val 0 \<and>
   (0 < n \<longrightarrow>
      calculate_sigma residuals n =
        Val (sqrt (sum_list [v * v. Val v \<leftarrow> residuals] / real_of_int n)))"
proof (intro conjI impI)
  show "calculate_sigma residuals 0 = Val 0"
    by (simp add: calculate_sigma_def)
next
  assume n: "0 < n"
  define s where "s = sum_list [v * v. Val v \<leftarrow> residuals]"
  have "np_nansum (map power2 residuals) = Val s"
    by (simp add: np_nansum_def nansum_fold s_def)
  moreover have "0 \<le> s / real_of_int n"
    using n sum_squares_nonneg [of residuals] by (simp add: s_def)
  ultimately show "calculate_sigma residuals n =
        Val (sqrt (sum_list [v * v. Val v \<leftarrow> residuals] / real_of_int n))"
    using n by (simp add: calculate_sigma_def divide_def np_sqrt_def s_def)
qed

theorem calculate_sigma_zero_count_witness:
  "calculate_sigma [Val 3, NaN, Val (- 4)] 0 = Val 0 \<and>
   calculate_sigma [NaN, NaN] 0 = Val 0 \<and>
   (0::int) < 1 \<and> calculate_sigma [Val 3, NaN, Val (- 4)] 1 = Val 5"
proof -
  have "sqrt (sum_list [v * v. Val v \<leftarrow> [Val 3, NaN, Val (- 4)]] / real_of_int 1) = 5"
    by (simp add: real_sqrt_eq_iff [of _ 5, simplified] real_sqrt_unique)
  with calculate_sigma_zero_count [of "[Val 3, NaN, Val (- 4)]" 1]
    calculate_sigma_zero_count [of "[NaN, NaN]" 1]
  show ?thesis by simp
qed

subsection \<open>What the interval builder returns\<close>

lemma reshape_repeat:
  "map (\<lambda>i. take k (drop (i * k) (concat (map (replicate k) z)))) [0..<length z] =
     map (replicate k) z"
proof (induction z)
  case Nil
  then show ?case by simp
next
  case (Cons a z)
  have "[0..<length (a # z)] = 0 # map Suc [0..<length z]"
    by (simp add: upt_conv_Cons map_Suc_upt del: upt_Suc)
  then show ?case
    using Cons.IH by (simp add: comp_def del: upt_Suc)
qed

lemma length_repeat: "length (concat (map (replicate k) z)) = length z * k"
  by (induction z) simp_all

lemma dict_update_lookup:
  "dict_update d items k = (case map_of (rev items) k of None \<Rightarrow> d k | Some v \<Rightarrow> Some v)"
proof (induction items arbitrary: d)
  case Nil
  then show ?case by (simp add: dict_update_def)
next
  case (Cons kv items)
  obtain k' v' where kv: "kv = (k', v')" by (cases kv)
  have "dict_update d (kv # items) k = dict_update (d(k' \<mapsto> v')) items k"
    by (simp add: dict_update_def kv)
  also have "\<dots> = (case map_of (rev items) k of None \<Rightarrow> (d(k' \<mapsto> v')) k | Some v \<Rightarrow> Some v)"
    by (rule Cons.IH)
  finally show ?case
    by (simp add: kv map_add_def split: option.splits)
qed

lemma map_of_keyed:
  assumes "inj key"
  shows "map_of (map (\<lambda>lv. (key lv, g lv)) xs) (key lv) =
           (if lv \<in> set xs then Some (g lv) else None)"
  using assms by (induction xs) (auto simp: inj_def)

lemma map_of_other_key:
  assumes "\<And>x. key x \<noteq> k"
  shows "map_of (map (\<lambda>lv. (key lv, g lv)) xs) k = None"
  using assms by (induction xs) auto

lemma stretch_fits: "length xs = c \<Longrightarrow> stretch c xs = xs"
  by (simp add: stretch_def)

lemma length_stretch: "length (stretch c xs) = c"
  by (simp add: stretch_def)

lemma calculate_intervals_run:
  fixes h :: nat
  assumes mean: "out ''mean'' = Some mean" and len: "length mean = h"
    and sig: "length sigmah = h \<or> length sigmah = 1"
  shows "calculate_intervals ppf out level (int h) sigmah =
           Inr (dict_update
                 (dict_update Map.empty
                    (map (\<lambda>lv. (Lo lv,
                       map2 (-) mean
                         (map2 (*) (replicate h (ppf (0.5 + lv / 200))) (stretch h sigmah))))
                       level))
                 (map (\<lambda>lv. (Hi lv,
                    map2 (+) mean
                      (map2 (*) (replicate h (ppf (0.5 + lv / 200))) (stretch h sigmah))))
                    level))"
proof -
  define z where "z = quantiles ppf level"
  define S where "S = stretch h sigmah"
  define spread where "spread = map (\<lambda>row. map2 (*) row S) (map (replicate h) z)"
  have lenS: "length S = h" by (simp add: S_def length_stretch)
  have rep: "np_repeat z (int h) = Inr (concat (map (replicate h) z))"
    by (simp add: np_repeat_def)
  have resh: "np_reshape (concat (map (replicate h) z)) (length z) (int h) =
      Inr (h, map (replicate h) z)"
    by (simp add: np_reshape_def length_repeat reshape_repeat)
  have "bshape h (length sigmah) = Inr h"
    using sig by (auto simp: bshape_def)
  then have mul: "array2_op (*) (h, map (replicate h) z) sigmah = Inr (h, spread)"
    by (simp add: array2_op_def spread_def S_def stretch_fits)
  have rows: "\<forall>row \<in> set spread. length row = h"
    by (auto simp: spread_def lenS)
  have shape: "bshape h h = Inr h"
    by (simp add: bshape_def)
  have lower: "op_array2 (-) mean (h, spread) = Inr (h, map (\<lambda>row. map2 (-) mean row) spread)"
    using rows by (simp add: op_array2_def shape stretch_fits len)
  have upper: "op_array2 (+) mean (h, spread) = Inr (h, map (\<lambda>row. map2 (+) mean row) spread)"
    using rows by (simp add: op_array2_def shape stretch_fits len)
  have lo_items: "zip (map Lo level) (map (\<lambda>row. map2 (-) mean row) spread) =
      map (\<lambda>lv. (Lo lv, map2 (-) mean (map2 (*) (replicate h (ppf (0.5 + lv / 200))) S))) level"
    by (simp add: spread_def z_def quantiles_def zip_map_map zip_same_conv_map comp_def)
  have hi_items: "zip (map Hi level) (map (\<lambda>row. map2 (+) mean row) spread) =
      map (\<lambda>lv. (Hi lv, map2 (+) mean (map2 (*) (replicate h (ppf (0.5 + lv / 200))) S))) level"
    by (simp add: spread_def z_def quantiles_def zip_map_map zip_same_conv_map comp_def)
  have "calculate_intervals ppf out level (int h) sigmah =
      Inr (dict_update
            (dict_update Map.empty (zip (map Lo level) (map (\<lambda>row. map2 (-) mean row) spread)))
            (zip (map Hi level) (map (\<lambda>row. map2 (+) mean row) spread)))"
    unfolding calculate_intervals_def Let_def z_def [symmetric]
    by (simp add: rep resh mean mul lower upper)
  then show ?thesis
    unfolding lo_items hi_items S_def .
qed

lemma interval_lookup:
  assumes "lv \<in> set level"
  shows "dict_update (dict_update Map.empty (map (\<lambda>lv. (Lo lv, lo lv)) level))
           (map (\<lambda>lv. (Hi lv, hi lv)) level) (Lo lv) = Some (lo lv)"
    and "dict_update (dict_update Map.empty (map (\<lambda>lv. (Lo lv, lo lv)) level))
           (map (\<lambda>lv. (Hi lv, hi lv)) level) (Hi lv) = Some (hi lv)"
proof -
  have "inj Lo" and "inj Hi" by (simp_all add: inj_def)
  from assms have mem: "lv \<in> set (rev level)" by simp
  have "map_of (map (\<lambda>lv. (Hi lv, hi lv)) (rev level)) (Lo lv) = None"
    by (rule map_of_other_key) simp
  moreover have "map_of (map (\<lambda>lv. (Lo lv, lo lv)) (rev level)) (Lo lv) = Some (lo lv)"
    using map_of_keyed [OF \<open>inj Lo\<close>, of lo "rev level" lv] mem by simp
  ultimately show "dict_update (dict_update Map.empty (map (\<lambda>lv. (Lo lv, lo lv)) level))
           (map (\<lambda>lv. (Hi lv, hi lv)) level) (Lo lv) = Some (lo lv)"
    by (simp add: dict_update_lookup rev_map)
  have "map_of (map (\<lambda>lv. (Hi lv, hi lv)) (rev level)) (Hi lv) = Some (hi lv)"
    using map_of_keyed [OF \<open>inj Hi\<close>, of hi "rev level" lv] mem by simp
  then show "dict_update (dict_update Map.empty (map (\<lambda>lv. (Lo lv, lo lv)) level))
           (map (\<lambda>lv. (Hi lv, hi lv)) level) (Hi lv) = Some (hi lv)"
    by (simp add: dict_update_lookup rev_map)
qed

lemma stretch_nonneg:
  assumes "length sigmah = c \<or> length sigmah = 1" and "list_all (\<lambda>s. 0 \<le> s) sigmah"
    and "t < c"
  shows "(0::real) \<le> stretch c sigmah ! t"
proof (cases "length sigmah = c")
  case True
  with assms(2,3) show ?thesis
    by (simp add: stretch_def list_all_length)
next
  case False
  with assms(1) have "length sigmah = 1" by simp
  then have "hd sigmah \<in> set sigmah" by (cases sigmah) simp_all
  with assms(2) have "0 \<le> hd sigmah" by (simp add: list_all_iff)
  with False assms(3) show ?thesis by (simp add: stretch_def)
qed

subsection \<open>Interval width and confidence level\<close>

text \<open>
  Claim C7: for a mean array of length \<open>h\<close>, a spread \<open>sigmah\<close> that is nowhere
  negative (one value per step, or a single value for all steps) and two confidence
  levels \<open>lv1 < lv2\<close> in \<open>(0, 100)\<close>, the interval of the higher level is at least as wide
  at every step: \<open>upper_lv2[t] - lower_lv2[t] \<ge> upper_lv1[t] - lower_lv1[t]\<close>. The two
  levels may be asked for in one call (\<open>level1 = level2\<close>) or in two. The reason the
  claim gives is the hypothesis on \<open>ppf\<close>: the quantile function grows with its
  argument on \<open>(1/2, 1)\<close>, where \<open>0.5 + lv / 200\<close> lies.
\<close>

theorem interval_width_monotone:
  fixes h :: nat
  assumes quantile: "mono_on {1/2 <..< 1} ppf"
    and mean: "out ''mean'' = Some mean" "length mean = h"
    and sig: "length sigmah = h \<or> length sigmah = 1" "list_all (\<lambda>s. 0 \<le> s) sigmah"
    and levels: "lv1 \<in> set level1" "lv2 \<in> set level2" "0 < lv1" "lv1 < lv2" "lv2 < 100"
  shows "\<exists>pred_int1 pred_int2 lower1 upper1 lower2 upper2.
           calculate_intervals ppf out level1 (int h) sigmah = Inr pred_int1 \<and>
           calculate_intervals ppf out level2 (int h) sigmah = Inr pred_int2 \<and>
           pred_int1 (Lo lv1) = Some lower1 \<and> pred_int1 (Hi lv1) = Some upper1 \<and>
           pred_int2 (Lo lv2) = Some lower2 \<and> pred_int2 (Hi lv2) = Some upper2 \<and>
           length lower1 = h \<and> length upper1 = h \<and>
           length lower2 = h \<and> length upper2 = h \<and>
           (\<forall>t<h. upper1 ! t - lower1 ! t \<le> upper2 ! t - lower2 ! t)"
proof -
  define S where "S = stretch h sigmah"
  define lo where "lo = (\<lambda>lv. map2 (-) mean (map2 (*) (replicate h (ppf (0.5 + lv / 200))) S))"
  define hi where "hi = (\<lambda>lv. map2 (+) mean (map2 (*) (replicate h (ppf (0.5 + lv / 200))) S))"
  define pred_int where "pred_int = (\<lambda>level.
    dict_update (dict_update Map.empty (map (\<lambda>lv. (Lo lv, lo lv)) level))
      (map (\<lambda>lv. (Hi lv, hi lv)) level))"
  have lenS: "length S = h" by (simp add: S_def length_stretch)
  have run: "calculate_intervals ppf out level (int h) sigmah = Inr (pred_int level)" for level
    unfolding pred_int_def lo_def hi_def S_def
    using mean sig(1) by (rule calculate_intervals_run)
  have look: "pred_int level1 (Lo lv1) = Some (lo lv1)" "pred_int level1 (Hi lv1) = Some (hi lv1)"
    "pred_int level2 (Lo lv2) = Some (lo lv2)" "pred_int level2 (Hi lv2) = Some (hi lv2)"
    unfolding pred_int_def using levels(1,2) by (simp_all add: interval_lookup)
  have lens: "length (lo lv) = h" "length (hi lv) = h" for lv
    by (simp_all add: lo_def hi_def lenS mean(2))
  have "1/2 < 0.5 + lv1 / 200" "0.5 + lv1 / 200 \<le> 0.5 + lv2 / 200" "0.5 + lv2 / 200 < 1"
    using levels(3-5) by simp_all
  then have z: "ppf (0.5 + lv1 / 200) \<le> ppf (0.5 + lv2 / 200)"
    using quantile by (auto elim!: mono_onD)
  have width: "hi lv ! t - lo lv ! t = 2 * (ppf (0.5 + lv / 200) * S ! t)" if "t < h" for lv t
    using that by (simp add: lo_def hi_def lenS mean(2))
  have "hi lv1 ! t - lo lv1 ! t \<le> hi lv2 ! t - lo lv2 ! t" if "t < h" for t
  proof -
    from that sig have "0 \<le> S ! t"
      unfolding S_def by (intro stretch_nonneg)
    with z have "ppf (0.5 + lv1 / 200) * S ! t \<le> ppf (0.5 + lv2 / 200) * S ! t"
      by (rule mult_right_mono)
    with that show ?thesis by (simp add: width)
  qed
  with run [of level1] run [of level2] look lens show ?thesis by blast
qed

theorem interval_width_monotone_witness:
  "mono_on {1/2 <..< 1} (\<lambda>p::real. 10 * (p - 1/2)) \<and>
   list_all (\<lambda>s. 0 \<le> s) [1, 2::real] \<and>
   map_sum id (\<lambda>pred_int. (pred_int (Lo 80), pred_int (Hi 80), pred_int (Lo 95), pred_int (Hi 95)))
     (calculate_intervals (\<lambda>p. 10 * (p - 1/2)) [''mean'' \<mapsto> [10, 20]] [80, 95] (int 2) [1, 2]) =
     Inr (Some [6, 12], Some [14, 28], Some [21/4, 21/2], Some [59/4, 59/2])"
proof -
  have quantile: "mono_on {1/2 <..< 1} (\<lambda>p::real. 10 * (p - 1/2))"
    by (simp add: mono_on_def)
  have sig: "list_all (\<lambda>s. 0 \<le> s) [1, 2::real]" by simp
  have "\<exists>pred_int. calculate_intervals (\<lambda>p. 10 * (p - 1/2)) [''mean'' \<mapsto> [10, 20]] [80, 95]
      (int 2) [1, 2] = Inr pred_int"
    using interval_width_monotone [OF quantile, where out = "[''mean'' \<mapsto> [10, 20]]"
        and mean = "[10, 20]" and h = 2 and sigmah = "[1, 2]" and ?lv1.0 = 80
        and ?level1.0 = "[80, 95]" and ?lv2.0 = 95 and ?level2.0 = "[80, 95]"] sig
    by auto
  moreover have "map_sum id
      (\<lambda>pred_int. (pred_int (Lo 80), pred_int (Hi 80), pred_int (Lo 95), pred_int (Hi 95)))
     (calculate_intervals (\<lambda>p. 10 * (p - 1/2)) [''mean'' \<mapsto> [10, 20]] [80, 95] (int 2) [1, 2]) =
     Inr (Some [6, 12], Some [14, 28], Some [21/4, 21/2], Some [59/4, 59/2])"
    by code_simp
  ultimately show ?thesis using quantile sig by simp
qed

end
